theory Spec2Isabelle
  imports Main "HOL-Library.Word"
begin

section \<open>Basic types\<close>

type_synonym byte = "8 word"
type_synonym uint32 = "32 word"
type_synonym int64 = "64 word"

text \<open>
  Go errors. The package-level variables of db.go are constructors of their own; an
  error made on the spot with \<open>errors.New\<close> is \<open>ErrNew\<close> with its message; an error
  that comes from outside the package (io, os, the mmap library) is \<open>ErrExternal\<close>.
  \<open>PanicNilHeader\<close> is not an error value: it stands for the run-time panic of
  dereferencing \<open>db.header\<close> while it is nil.
\<close>

datatype error =
    ErrInvalidMagic
  | ErrInvalidPageSize
  | ErrReservedSpace
  | ErrCorrupted
  | ErrInvalidDef
  | ErrRecursion
  | ErrFileTruncated
  | ErrIncompatible
  | ErrEncoding
  | ErrWAL
  | ErrHotJournal
  | ErrNoSuchTable
  | ErrNoSuchIndex
  | ErrNew string
  | ErrExternal string
  | PanicNilHeader

section \<open>The file header (db.go, parseHeader)\<close>

definition headerMagic :: "byte list" where
  "headerMagic =
     [0x53, 0x51, 0x4c, 0x69, 0x74, 0x65, 0x20, 0x66,
      0x6f, 0x72, 0x6d, 0x61, 0x74, 0x20, 0x33, 0x00]"

definition headerSize :: nat where
  "headerSize = 100"

definition CachePages :: nat where
  "CachePages = 100"

record header =
  PageSize :: int
  ChangeCounter :: uint32
  SchemaCookie :: uint32

text \<open>The zero value \<open>header{}\<close>.\<close>

definition header0 :: header where
  "header0 = \<lparr>PageSize = 0, ChangeCounter = 0, SchemaCookie = 0\<rparr>"

text \<open>The anonymous struct \<open>hs\<close> of parseHeader; the fields named \<open>_\<close> are skipped.\<close>

record hs =
  Magic :: "byte list"
  hsPageSize :: "16 word"
  ReadVersion :: byte
  ReservedSpace :: byte
  MaxFraction :: byte
  MinFraction :: byte
  LeafFraction :: byte
  hsChangeCounter :: uint32
  hsSchemaCookie :: uint32
  SchemaFormat :: uint32
  TextEncoding :: uint32
  ReservedForExpansion :: "byte list"

text \<open>Big-endian integers, as \<open>binary.BigEndian\<close> reads them.\<close>

definition be16 :: "byte list \<Rightarrow> 16 word" where
  "be16 bs = of_nat (unat (bs ! 0) * 256 + unat (bs ! 1))"

definition be32 :: "byte list \<Rightarrow> uint32" where
  "be32 bs = of_nat (unat (bs ! 0) * 16777216 + unat (bs ! 1) * 65536
                     + unat (bs ! 2) * 256 + unat (bs ! 3))"

definition slice :: "nat \<Rightarrow> nat \<Rightarrow> 'a list \<Rightarrow> 'a list" where
  "slice off n bs = take n (drop off bs)"

text \<open>
  \<open>binary.Read\<close> of the 100 bytes into \<open>hs\<close>, field after field at the offsets the
  struct layout gives (16 + 2 + 1 + 1 + 1 + 1 + 1 + 1 + 4 + 12 + 4 + 4 + 8 + 4 + 12 + 20 + 8
  = 100). It fails when the buffer is shorter than the struct; the argument of
  parseHeader is a \<open>[headerSize]byte\<close>, so that never happens there.
\<close>

definition decodeHs :: "byte list \<Rightarrow> hs" where
  "decodeHs b =
     \<lparr>Magic = slice 0 16 b,
      hsPageSize = be16 (slice 16 2 b),
      ReadVersion = b ! 19,
      ReservedSpace = b ! 20,
      MaxFraction = b ! 21,
      MinFraction = b ! 22,
      LeafFraction = b ! 23,
      hsChangeCounter = be32 (slice 24 4 b),
      hsSchemaCookie = be32 (slice 40 4 b),
      SchemaFormat = be32 (slice 44 4 b),
      TextEncoding = be32 (slice 56 4 b),
      ReservedForExpansion = slice 72 20 b\<rparr>"

definition binaryRead :: "byte list \<Rightarrow> error + hs" where
  "binaryRead b =
     (if length b < headerSize then Inl (ErrExternal ''unexpected EOF'')
      else Inr (decodeHs b))"

text \<open>\<open>bits.OnesCount\<close>: the number of one bits.\<close>

fun OnesCount :: "nat \<Rightarrow> nat" where
  "OnesCount n = (if n = 0 then 0 else n mod 2 + OnesCount (n div 2))"

declare OnesCount.simps [simp del]

definition isPower :: "nat \<Rightarrow> bool" where
  "isPower n = (OnesCount n = 1)"

text \<open>
  parseHeader returns a header and an error, both; on an error the header is the
  partly filled \<open>h\<close> (or \<open>header{}\<close> for a bad page size), as in the source.
\<close>

definition parseHeader :: "byte list \<Rightarrow> header \<times> error option" where
  "parseHeader b =
     (case binaryRead b of
        Inl e \<Rightarrow> (header0, Some e)
      | Inr hs \<Rightarrow>
          let h = header0 in
          if Magic hs \<noteq> headerMagic then (h, Some ErrInvalidMagic)
          else
            let s = unat (hsPageSize hs);
                s = (if s = 1 then 2 ^ 16 else s)
            in
            if s < 512 \<or> s > 2 ^ 16 \<or> \<not> isPower s then (header0, Some ErrInvalidPageSize)
            else
              let h = h\<lparr>PageSize := int s\<rparr> in
              if ReadVersion hs = 1 then
                if unat (ReservedSpace hs) \<noteq> 0 then (h, Some ErrReservedSpace)
                else if MaxFraction hs \<noteq> 64 \<or> MinFraction hs \<noteq> 32 \<or> LeafFraction hs \<noteq> 32
                then (h, Some ErrIncompatible)
                else
                  let h = h\<lparr>ChangeCounter := hsChangeCounter hs\<rparr>;
                      h = h\<lparr>SchemaCookie := hsSchemaCookie hs\<rparr>
                  in
                  if SchemaFormat hs \<noteq> 2 \<and> SchemaFormat hs \<noteq> 3 \<and> SchemaFormat hs \<noteq> 4
                  then (h, Some ErrIncompatible)
                  else if TextEncoding hs = 1 then
                    if \<exists>v \<in> set (ReservedForExpansion hs). v \<noteq> 0
                    then (h, Some ErrIncompatible)
                    else (h, None)
                  else if TextEncoding hs = 2 \<or> TextEncoding hs = 3 then (h, Some ErrEncoding)
                  else (h, Some ErrIncompatible)
              else if ReadVersion hs = 2 then (h, Some ErrWAL)
              else (h, Some ErrIncompatible))"

section \<open>The pager (pager_windows.go)\<close>

text \<open>
  The file pager holds the memory map of the file; \<open>mm\<close> is the mapped contents. The
  \<open>os.File\<close> beside it is only closed, never read.
\<close>

record filePager =
  mm :: "byte list"

text \<open>
  \<open>ReadAt\<close> of the external library golang.org/x/exp/mmap, as \<open>io.ReaderAt\<close> documents
  it: the buffer of \<open>n\<close> bytes is filled from offset \<open>off\<close>; a read that ends past the
  mapping copies what there is and reports \<open>io.EOF\<close>, an offset outside the mapping copies
  nothing and reports an error of the library. The buffer comes from \<open>make\<close>, so the
  bytes not copied are zero. None of these errors is a value of this package.
\<close>

definition ReadAt :: "byte list \<Rightarrow> nat \<Rightarrow> int \<Rightarrow> byte list \<times> error option" where
  "ReadAt data n off =
     (if off < 0 \<or> int (length data) < off
      then (replicate n 0, Some (ErrExternal ''mmap: invalid ReadAt offset''))
      else
        let chunk = take n (drop (nat off) data) in
        if length chunk < n
        then (chunk @ replicate (n - length chunk) 0, Some (ErrExternal ''EOF''))
        else (chunk, None))"

text \<open>
  pages start counting at 1 (\<open>pid\<close> is the \<open>id\<close> of the source). The offset is the
  product of two \<open>int64\<close>, which wraps around.
\<close>

definition filePager_page :: "filePager \<Rightarrow> int \<Rightarrow> int \<Rightarrow> byte list \<times> error option" where
  "filePager_page f pid pagesize =
     ReadAt (mm f) (nat pagesize) (sint (word_of_int (pid - 1) * word_of_int pagesize :: int64))"

text \<open>
  Modelled from the spec: the method \<open>header()\<close> of the pager interface, which db.go
  calls and pager_windows.go does not show. Spec 4.1: "header() returns the first 100
  bytes". It is read through the same mapping as a page is.
\<close>

definition filePager_header :: "filePager \<Rightarrow> byte list \<times> error option" where
  "filePager_header f = ReadAt (mm f) headerSize 0"

definition filePager_RLock :: "filePager \<Rightarrow> error option" where
  "filePager_RLock f = None"

definition filePager_RUnlock :: "filePager \<Rightarrow> error option" where
  "filePager_RUnlock f = None"

text \<open>True if there is a 'reserved' lock on the database, by any process.\<close>

definition CheckReservedLock :: "filePager \<Rightarrow> bool \<times> error option" where
  "CheckReservedLock f = (False, None)"

text \<open>
  The file system, as far as the reader looks at it: a path leads to no file, to a file
  that cannot be opened or read, or to a file with its contents.
\<close>

datatype fsentry = Absent | Unreadable | Contents "byte list"

type_synonym filesystem = "string \<Rightarrow> fsentry"

definition newFilePager :: "filesystem \<Rightarrow> string \<Rightarrow> error + filePager" where
  "newFilePager fs fname =
     (case fs fname of
        Absent \<Rightarrow> Inl (ErrExternal ''open: file does not exist'')
      | Unreadable \<Rightarrow> Inl (ErrExternal ''open: input/output error'')
      | Contents d \<Rightarrow> Inr \<lparr>mm = d\<rparr>)"

section \<open>The journal\<close>

definition journalMagic :: "byte list" where
  "journalMagic = [0xd9, 0xd5, 0x05, 0xf9, 0x20, 0xa1, 0x63, 0xd7]"

text \<open>
  Modelled from the spec: validJournal, which resolveDirty calls and the sources do not
  show. Spec 6: "the validator determines hot by: file exists, size >= 28 bytes, magic
  matches, and the first page-count field is nonzero." The page count is the big-endian
  32-bit field that follows the 8 bytes of magic. The caller handles an error of
  validJournal; it is the one of a file that cannot be read.
\<close>

definition validJournal :: "filesystem \<Rightarrow> string \<Rightarrow> bool \<times> error option" where
  "validJournal fs fname =
     (case fs fname of
        Absent \<Rightarrow> (False, None)
      | Unreadable \<Rightarrow> (False, Some (ErrExternal ''journal: input/output error''))
      | Contents d \<Rightarrow>
          (28 \<le> length d \<and> slice 0 8 d = journalMagic \<and> be32 (slice 8 4 d) \<noteq> 0, None))"

section \<open>Records, b-tree pages and the page cache\<close>

text \<open>
  A value of a record, as parseRecord returns it (spec 4.4: "a tagged union over null,
  i64, f64, text, blob"). The 64 bits of a float stand for the float.
\<close>

datatype val = Null | Integer int64 | Float64 "64 word" | Text string | Blob "byte list"

type_synonym Record = "val list"

text \<open>
  Modelled from the spec: the payload of a cell, whose type the sources use and do not
  show. Spec 9: "Represent a cell's payload as (inline_slice, total_len,
  first_overflow)".
\<close>

record cellPayload =
  Payload :: "byte list"
  Length :: int
  Overflow :: int

text \<open>
  Modelled from the spec: the four kinds of b-tree page (spec 3), with the cells of
  each kind. A table page is a \<open>tableBtree\<close>, an index page an \<open>indexBtree\<close>; openPage
  returns either as an \<open>interface{}\<close>.
\<close>

datatype tableBtree =
    tableLeaf "(int64 \<times> cellPayload) list"
  | tableInterior "(int \<times> int64) list" int

datatype indexBtree =
    indexLeaf "cellPayload list"
  | indexInterior "(int \<times> cellPayload) list" int

datatype btree = TablePage tableBtree | IndexPage indexBtree

text \<open>
  Modelled from the spec: the page cache, whose type the sources use and do not show.
  Spec 3: "an LRU page cache (default 100 entries) keyed by page number". The entries
  are kept most recently used first; \<open>get\<close> moves the entry it finds to the front,
  \<open>set\<close> puts the page in front and drops the entries beyond the capacity.
\<close>

record btreeCache =
  capacity :: nat
  entries :: "(int \<times> btree) list"

definition newBtreeCache :: "nat \<Rightarrow> btreeCache" where
  "newBtreeCache n = \<lparr>capacity = n, entries = []\<rparr>"

definition cache_clear :: "btreeCache \<Rightarrow> btreeCache" where
  "cache_clear c = c\<lparr>entries := []\<rparr>"

definition cache_get :: "btreeCache \<Rightarrow> int \<Rightarrow> btree option \<times> btreeCache" where
  "cache_get c page =
     (case map_of (entries c) page of
        None \<Rightarrow> (None, c)
      | Some p \<Rightarrow> (Some p, c\<lparr>entries := (page, p) # filter (\<lambda>e. fst e \<noteq> page) (entries c)\<rparr>))"

definition cache_set :: "btreeCache \<Rightarrow> int \<Rightarrow> btree \<Rightarrow> btreeCache" where
  "cache_set c page p =
     c\<lparr>entries := take (capacity c) ((page, p) # filter (\<lambda>e. fst e \<noteq> page) (entries c))\<rparr>"

section \<open>The database (db.go)\<close>

record sqliteMaster =
  typ' :: string
  name :: string
  tblName :: string
  rootPage :: int
  sql :: string

record objectCache =
  objects :: "sqliteMaster list"
  err :: "error option"

text \<open>
  The struct Database. The pointers \<open>header\<close> and \<open>objectCache\<close> are options, nil being
  \<open>None\<close>; the pager \<open>l\<close> is the file pager, the one implementation of the interface.
  Every method that changes the database returns the new one beside its results.
\<close>

record Database =
  journal :: string
  dirty :: bool
  l :: filePager
  header :: "header option"
  btreeCache :: btreeCache
  objectCache :: "objectCache option"

text \<open>
  What the database code takes from outside: the file system, and three functions of
  this package that the sources use and do not show. They are parameters: newBtree
  decodes the bytes of a page (the flag is true for page 1), addOverflow completes the
  payload of a cell from the overflow pages of the database, which it only reads, and
  parseRecord decodes a payload into values.
\<close>

record env =
  fs :: filesystem
  newBtree :: "byte list \<Rightarrow> bool \<Rightarrow> error + btree"
  addOverflow :: "Database \<Rightarrow> cellPayload \<Rightarrow> error + byte list"
  parseRecord :: "byte list \<Rightarrow> error + Record"

text \<open>
  Modelled from the spec: the depth budget of a traversal, a constant the sources use
  and do not show. Spec 3: "default depth 1000".
\<close>

definition maxRecursion :: nat where
  "maxRecursion = 1000"

definition resolveDirty :: "env \<Rightarrow> Database \<Rightarrow> error option \<times> Database" where
  "resolveDirty E db =
     (if \<not> dirty db then (None, db)
      else
        let gate =
          (if journal db \<noteq> [] then
             (case validJournal (fs E) (journal db) of
                (hot, Some e) \<Rightarrow> Some e
              | (hot, None) \<Rightarrow>
                  if hot then
                    (case CheckReservedLock (l db) of
                       (locked, Some e) \<Rightarrow> Some e
                     | (locked, None) \<Rightarrow> if \<not> locked then Some ErrHotJournal else None)
                  else None)
           else None)
        in
        case gate of
          Some e \<Rightarrow> (Some e, db)
        | None \<Rightarrow>
            (case filePager_header (l db) of
               (buf, Some e) \<Rightarrow> (Some e, db)
             | (buf, None) \<Rightarrow>
                 (case parseHeader buf of
                    (newHeader, Some e) \<Rightarrow> (Some e, db)
                  | (newHeader, None) \<Rightarrow>
                      let db1 = (case header db of
                                   None \<Rightarrow> db
                                 | Some h \<Rightarrow>
                                     if ChangeCounter h \<noteq> ChangeCounter newHeader
                                     then db\<lparr>btreeCache := cache_clear (btreeCache db)\<rparr>
                                     else db);
                          db2 = (case header db1 of
                                   None \<Rightarrow> db1
                                 | Some h \<Rightarrow>
                                     if SchemaCookie h \<noteq> SchemaCookie newHeader
                                     then db1\<lparr>objectCache := None\<rparr>
                                     else db1)
                      in (None, db2\<lparr>dirty := False, header := Some newHeader\<rparr>))))"

text \<open>newDatabase returns the database and the error of resolveDirty, both.\<close>

definition newDatabase :: "env \<Rightarrow> filePager \<Rightarrow> string \<Rightarrow> Database \<times> error option" where
  "newDatabase E p j =
     (let d = \<lparr>journal = j, dirty = True, l = p, header = None,
               btreeCache = newBtreeCache CachePages, objectCache = None\<rparr>
      in case resolveDirty E d of (e, d') \<Rightarrow> (d', e))"

definition OpenFile :: "env \<Rightarrow> string \<Rightarrow> Database option \<times> error option" where
  "OpenFile E f =
     (case newFilePager (fs E) f of
        Inl e \<Rightarrow> (None, Some e)
      | Inr p \<Rightarrow> (case newDatabase E p (f @ ''-journal'') of (d, e) \<Rightarrow> (Some d, e)))"

definition RLock :: "Database \<Rightarrow> error option \<times> Database" where
  "RLock db = (filePager_RLock (l db), db\<lparr>dirty := True\<rparr>)"

definition RUnlock :: "Database \<Rightarrow> error option \<times> Database" where
  "RUnlock db = (filePager_RUnlock (l db), db)"

text \<open>
  n starts at 1, sqlite style. The database is only read. Before the first header is
  stored \<open>db.header\<close> is nil and the page size cannot be read: the program panics.
\<close>

definition page :: "Database \<Rightarrow> int \<Rightarrow> byte list \<times> error option" where
  "page db pid =
     (if pid < 1 then ([], Some (ErrNew ''invalid page number''))
      else case header db of
             None \<Rightarrow> ([], Some PanicNilHeader)
           | Some h \<Rightarrow> filePager_page (l db) pid (PageSize h))"

text \<open>openPage returns a tableBtree or indexBtree\<close>

definition openPage :: "env \<Rightarrow> Database \<Rightarrow> int \<Rightarrow> (error + btree) \<times> Database" where
  "openPage E db pg =
     (case resolveDirty E db of
        (Some e, db1) \<Rightarrow> (Inl e, db1)
      | (None, db1) \<Rightarrow>
          (case cache_get (btreeCache db1) pg of
             (Some p, c) \<Rightarrow> (Inr p, db1\<lparr>btreeCache := c\<rparr>)
           | (None, c) \<Rightarrow>
               let db2 = db1\<lparr>btreeCache := c\<rparr> in
               (case page db2 pg of
                  (buf, Some e) \<Rightarrow> (Inl e, db2)
                | (buf, None) \<Rightarrow>
                    (case newBtree E buf (pg = 1) of
                       Inl e \<Rightarrow> (Inl e, db2)
                     | Inr p \<Rightarrow> (Inr p, db2\<lparr>btreeCache := cache_set (btreeCache db2) pg p\<rparr>)))))"

definition openTable :: "env \<Rightarrow> Database \<Rightarrow> int \<Rightarrow> (error + tableBtree) \<times> Database" where
  "openTable E db pg =
     (case openPage E db pg of
        (Inl e, db1) \<Rightarrow> (Inl e, db1)
      | (Inr (TablePage tb), db1) \<Rightarrow> (Inr tb, db1)
      | (Inr (IndexPage ib), db1) \<Rightarrow> (Inl (ErrNew ''found an index, expected a table''), db1))"

definition openIndex :: "env \<Rightarrow> Database \<Rightarrow> int \<Rightarrow> (error + indexBtree) \<times> Database" where
  "openIndex E db pg =
     (case openPage E db pg of
        (Inl e, db1) \<Rightarrow> (Inl e, db1)
      | (Inr (IndexPage ib), db1) \<Rightarrow> (Inr ib, db1)
      | (Inr (TablePage tb), db1) \<Rightarrow> (Inl (ErrNew ''found a table, expected an index''), db1))"

section \<open>Traversal of a b-tree\<close>

text \<open>
  A callback of a traversal is a closure: \<open>'s\<close> is the state it captures and may change
  (the list \<open>objects\<close> in master, whatever the user's callback keeps in a scan). It gets
  the database as it is at the call, and returns the pair (done, error) of the source.
\<close>

type_synonym 's tableIterCB =
  "'s \<Rightarrow> Database \<Rightarrow> int64 \<Rightarrow> cellPayload \<Rightarrow> (bool \<times> error option) \<times> 's"

type_synonym 's indexIterCB =
  "'s \<Rightarrow> Database \<Rightarrow> cellPayload \<Rightarrow> (bool \<times> error option) \<times> 's"

text \<open>
  Modelled from the spec: the method Iter of the table pages, which master and
  Table.Scan call and the sources do not show. Spec 4.6: "in-order traversal; visits
  every leaf cell left-to-right; visit returns a stop flag" and, for an interior page,
  "visit each child in order then descend into right_most_pointer. Recursion budget
  depth is decremented on each descent; at zero, fail with tree-too-deep". Spec 8: "A
  callback returning stop=true causes no further callbacks". Spec 7: an error aborts
  the traversal and is returned. The children are opened through openTable.
\<close>

fun tableLeafIter ::
  "'s tableIterCB \<Rightarrow> (int64 \<times> cellPayload) list \<Rightarrow> 's \<Rightarrow> Database \<Rightarrow> (bool \<times> error option) \<times> 's"
where
  "tableLeafIter cb [] s db = ((False, None), s)"
| "tableLeafIter cb ((rowid, pl) # cells) s db =
     (case cb s db rowid pl of
        ((done, e), s1) \<Rightarrow>
          if done \<or> e \<noteq> None then ((done, e), s1)
          else tableLeafIter cb cells s1 db)"

fun tableIter ::
  "env \<Rightarrow> nat \<Rightarrow> tableBtree \<Rightarrow> 's tableIterCB \<Rightarrow> 's \<Rightarrow> Database
     \<Rightarrow> (bool \<times> error option) \<times> 's \<times> Database"
and tableChildrenIter ::
  "env \<Rightarrow> nat \<Rightarrow> int list \<Rightarrow> 's tableIterCB \<Rightarrow> 's \<Rightarrow> Database
     \<Rightarrow> (bool \<times> error option) \<times> 's \<times> Database"
where
  "tableIter E depth (tableLeaf cells) cb s db =
     (case tableLeafIter cb cells s db of (r, s1) \<Rightarrow> (r, s1, db))"
| "tableIter E 0 (tableInterior cells rightmost) cb s db = ((False, Some ErrRecursion), s, db)"
| "tableIter E (Suc depth) (tableInterior cells rightmost) cb s db =
     tableChildrenIter E depth (map fst cells @ [rightmost]) cb s db"
| "tableChildrenIter E depth [] cb s db = ((False, None), s, db)"
| "tableChildrenIter E depth (child # children) cb s db =
     (case openTable E db child of
        (Inl e, db1) \<Rightarrow> ((False, Some e), s, db1)
      | (Inr tb, db1) \<Rightarrow>
          (case tableIter E depth tb cb s db1 of
             ((done, e), s1, db2) \<Rightarrow>
               if done \<or> e \<noteq> None then ((done, e), s1, db2)
               else tableChildrenIter E depth children cb s1 db2))"

text \<open>
  Modelled from the spec: the method Iter of the index pages, in the same words of the
  spec; the callback of an index traversal gets the payload only.
\<close>

fun indexLeafIter ::
  "'s indexIterCB \<Rightarrow> cellPayload list \<Rightarrow> 's \<Rightarrow> Database \<Rightarrow> (bool \<times> error option) \<times> 's"
where
  "indexLeafIter cb [] s db = ((False, None), s)"
| "indexLeafIter cb (pl # cells) s db =
     (case cb s db pl of
        ((done, e), s1) \<Rightarrow>
          if done \<or> e \<noteq> None then ((done, e), s1)
          else indexLeafIter cb cells s1 db)"

fun indexIter ::
  "env \<Rightarrow> nat \<Rightarrow> indexBtree \<Rightarrow> 's indexIterCB \<Rightarrow> 's \<Rightarrow> Database
     \<Rightarrow> (bool \<times> error option) \<times> 's \<times> Database"
and indexChildrenIter ::
  "env \<Rightarrow> nat \<Rightarrow> int list \<Rightarrow> 's indexIterCB \<Rightarrow> 's \<Rightarrow> Database
     \<Rightarrow> (bool \<times> error option) \<times> 's \<times> Database"
where
  "indexIter E depth (indexLeaf cells) cb s db =
     (case indexLeafIter cb cells s db of (r, s1) \<Rightarrow> (r, s1, db))"
| "indexIter E 0 (indexInterior cells rightmost) cb s db = ((False, Some ErrRecursion), s, db)"
| "indexIter E (Suc depth) (indexInterior cells rightmost) cb s db =
     indexChildrenIter E depth (map fst cells @ [rightmost]) cb s db"
| "indexChildrenIter E depth [] cb s db = ((False, None), s, db)"
| "indexChildrenIter E depth (child # children) cb s db =
     (case openIndex E db child of
        (Inl e, db1) \<Rightarrow> ((False, Some e), s, db1)
      | (Inr ib, db1) \<Rightarrow>
          (case indexIter E depth ib cb s db1 of
             ((done, e), s1, db2) \<Rightarrow>
               if done \<or> e \<noteq> None then ((done, e), s1, db2)
               else indexChildrenIter E depth children cb s1 db2))"

section \<open>The master table and the handles (db.go, lowlevel.go)\<close>

text \<open>
  The callback of master, a closure over \<open>db\<close> and over the list \<open>objects\<close> it appends
  to. A type assertion \<open>e[i].(string)\<close> holds for a text value, \<open>e[3].(int64)\<close> for an
  integer.
\<close>

definition masterCB :: "env \<Rightarrow> sqliteMaster list tableIterCB" where
  "masterCB E objs db rowid pl =
     (case addOverflow E db pl of
        Inl e \<Rightarrow> ((False, Some e), objs)
      | Inr c \<Rightarrow>
          (case parseRecord E c of
             Inl e \<Rightarrow> ((False, Some e), objs)
           | Inr e \<Rightarrow>
               if length e \<noteq> 5 then ((False, Some ErrInvalidDef), objs)
               else
                 (case e ! 0 of
                    Text s0 \<Rightarrow>
                      (case e ! 1 of
                         Text s1 \<Rightarrow>
                           (case e ! 2 of
                              Text s2 \<Rightarrow>
                                (case e ! 3 of
                                   Integer n \<Rightarrow>
                                     (case e ! 4 of
                                        Text s4 \<Rightarrow>
                                          ((False, None),
                                           objs @ [\<lparr>typ' = s0, name = s1, tblName = s2,
                                                    rootPage = sint n, sql = s4\<rparr>])
                                      | _ \<Rightarrow> ((False, Some ErrInvalidDef), objs))
                                 | _ \<Rightarrow> ((False, Some ErrInvalidDef), objs))
                            | _ \<Rightarrow> ((False, Some ErrInvalidDef), objs))
                       | _ \<Rightarrow> ((False, Some ErrInvalidDef), objs))
                  | _ \<Rightarrow> ((False, Some ErrInvalidDef), objs))))"

definition master :: "env \<Rightarrow> Database \<Rightarrow> (sqliteMaster list \<times> error option) \<times> Database" where
  "master E db =
     (case resolveDirty E db of
        (Some e, db1) \<Rightarrow> (([], Some e), db1)
      | (None, db1) \<Rightarrow>
          (case objectCache db1 of
             Some oc \<Rightarrow> ((objects oc, err oc), db1)
           | None \<Rightarrow>
               (case openTable E db1 1 of
                  (Inl e, db2) \<Rightarrow> (([], Some e), db2)
                | (Inr m, db2) \<Rightarrow>
                    (case tableIter E maxRecursion m (masterCB E) [] db2 of
                       ((done, e), objs, db3) \<Rightarrow>
                         ((objs, e), db3\<lparr>objectCache := Some \<lparr>objects = objs, err = e\<rparr>\<rparr>)))))"

text \<open>
  The handles. Their field \<open>db\<close> points to the one database, which the model passes
  along: a handle is used with the database that Table or Index returns beside it.
\<close>

record Table =
  Table_root :: int
  Table_sql :: string

record Index =
  Index_root :: int
  Index_sql :: string

text \<open>The loop of Table and of Index over the objects: the first one of the type and name.\<close>

fun findObject :: "string \<Rightarrow> string \<Rightarrow> sqliteMaster list \<Rightarrow> sqliteMaster option" where
  "findObject t n [] = None"
| "findObject t n (ob # obs) =
     (if typ' ob = t \<and> name ob = n then Some ob else findObject t n obs)"

definition Database_Table :: "env \<Rightarrow> Database \<Rightarrow> string \<Rightarrow> (error + Table) \<times> Database" where
  "Database_Table E db n =
     (case master E db of
        ((objs, Some e), db1) \<Rightarrow> (Inl e, db1)
      | ((objs, None), db1) \<Rightarrow>
          (case findObject ''table'' n objs of
             Some ob \<Rightarrow> (Inr \<lparr>Table_root = rootPage ob, Table_sql = sql ob\<rparr>, db1)
           | None \<Rightarrow> (Inl ErrNoSuchTable, db1)))"

definition Database_Index :: "env \<Rightarrow> Database \<Rightarrow> string \<Rightarrow> (error + Index) \<times> Database" where
  "Database_Index E db n =
     (case master E db of
        ((objs, Some e), db1) \<Rightarrow> (Inl e, db1)
      | ((objs, None), db1) \<Rightarrow>
          (case findObject ''index'' n objs of
             Some ob \<Rightarrow> (Inr \<lparr>Index_root = rootPage ob, Index_sql = sql ob\<rparr>, db1)
           | None \<Rightarrow> (Inl ErrNoSuchIndex, db1)))"

text \<open>
  The callbacks of the user: TableScanCB and RecordCB return true when the scan should
  be stopped. \<open>'s\<close> is the state the closure captures.
\<close>

type_synonym 's TableScanCB = "'s \<Rightarrow> int64 \<Rightarrow> Record \<Rightarrow> bool \<times> 's"

type_synonym 's RecordCB = "'s \<Rightarrow> Record \<Rightarrow> bool \<times> 's"

text \<open>The closure Table.Scan passes to Iter.\<close>

definition tableScanCB :: "env \<Rightarrow> 's TableScanCB \<Rightarrow> 's tableIterCB" where
  "tableScanCB E cb s db rowid pl =
     (case addOverflow E db pl of
        Inl e \<Rightarrow> ((False, Some e), s)
      | Inr c \<Rightarrow>
          (case parseRecord E c of
             Inl e \<Rightarrow> ((False, Some e), s)
           | Inr rec \<Rightarrow> (case cb s rowid rec of (stop, s1) \<Rightarrow> ((stop, None), s1))))"

definition Table_Scan ::
  "env \<Rightarrow> Database \<Rightarrow> Table \<Rightarrow> 's TableScanCB \<Rightarrow> 's \<Rightarrow> error option \<times> 's \<times> Database" where
  "Table_Scan E db t cb s =
     (case openTable E db (Table_root t) of
        (Inl e, db1) \<Rightarrow> (Some e, s, db1)
      | (Inr root, db1) \<Rightarrow>
          (case tableIter E maxRecursion root (tableScanCB E cb) s db1 of
             ((done, e), s1, db2) \<Rightarrow> (e, s1, db2)))"

text \<open>The closure Index.Scan passes to Iter.\<close>

definition indexScanCB :: "env \<Rightarrow> 's RecordCB \<Rightarrow> 's indexIterCB" where
  "indexScanCB E cb s db pl =
     (case addOverflow E db pl of
        Inl e \<Rightarrow> ((False, Some e), s)
      | Inr full \<Rightarrow>
          (case parseRecord E full of
             Inl e \<Rightarrow> ((False, Some e), s)
           | Inr rec \<Rightarrow> (case cb s rec of (stop, s1) \<Rightarrow> ((stop, None), s1))))"

definition Index_Scan ::
  "env \<Rightarrow> Database \<Rightarrow> Index \<Rightarrow> 's RecordCB \<Rightarrow> 's \<Rightarrow> error option \<times> 's \<times> Database" where
  "Index_Scan E db ix cb s =
     (case openIndex E db (Index_root ix) of
        (Inl e, db1) \<Rightarrow> (Some e, s, db1)
      | (Inr root, db1) \<Rightarrow>
          (case indexIter E maxRecursion root (indexScanCB E cb) s db1 of
             ((done, e), s1, db2) \<Rightarrow> (e, s1, db2)))"

section \<open>A traversal as the list of its visits\<close>

text \<open>
  To state what a traversal does to its callback, the traversal is split in two: the
  cells it would visit if the callback never stopped it, each with the database as it
  is at that visit, the error that ends the traversal (if any) and the database at the
  end; and the run of a callback over such a list, which stops at the first visit where
  the callback reports done or an error. That Iter is the run over the visits is
  proved below (\<open>tableIter_runVisits\<close>, \<open>indexIter_indexRun\<close>).
\<close>

type_synonym tableVisit = "Database \<times> int64 \<times> cellPayload"

fun tableVisits ::
  "env \<Rightarrow> nat \<Rightarrow> tableBtree \<Rightarrow> Database \<Rightarrow> tableVisit list \<times> error option \<times> Database"
and tableChildrenVisits ::
  "env \<Rightarrow> nat \<Rightarrow> int list \<Rightarrow> Database \<Rightarrow> tableVisit list \<times> error option \<times> Database"
where
  "tableVisits E depth (tableLeaf cells) db =
     (map (\<lambda>(rowid, pl). (db, rowid, pl)) cells, None, db)"
| "tableVisits E 0 (tableInterior cells rightmost) db = ([], Some ErrRecursion, db)"
| "tableVisits E (Suc depth) (tableInterior cells rightmost) db =
     tableChildrenVisits E depth (map fst cells @ [rightmost]) db"
| "tableChildrenVisits E depth [] db = ([], None, db)"
| "tableChildrenVisits E depth (child # children) db =
     (case openTable E db child of
        (Inl e, db1) \<Rightarrow> ([], Some e, db1)
      | (Inr tb, db1) \<Rightarrow>
          (case tableVisits E depth tb db1 of
             (vs, Some e, db2) \<Rightarrow> (vs, Some e, db2)
           | (vs, None, db2) \<Rightarrow>
               (case tableChildrenVisits E depth children db2 of
                  (vs', en, db3) \<Rightarrow> (vs @ vs', en, db3))))"

fun runVisits ::
  "'s tableIterCB \<Rightarrow> tableVisit list \<Rightarrow> error option \<Rightarrow> Database \<Rightarrow> 's
     \<Rightarrow> (bool \<times> error option) \<times> 's \<times> Database"
where
  "runVisits cb [] en dbEnd s = ((False, en), s, dbEnd)"
| "runVisits cb ((dbv, rowid, pl) # vs) en dbEnd s =
     (case cb s dbv rowid pl of
        ((done, e), s1) \<Rightarrow>
          if done \<or> e \<noteq> None then ((done, e), s1, dbv)
          else runVisits cb vs en dbEnd s1)"

type_synonym indexVisit = "Database \<times> cellPayload"

fun indexVisits ::
  "env \<Rightarrow> nat \<Rightarrow> indexBtree \<Rightarrow> Database \<Rightarrow> indexVisit list \<times> error option \<times> Database"
and indexChildrenVisits ::
  "env \<Rightarrow> nat \<Rightarrow> int list \<Rightarrow> Database \<Rightarrow> indexVisit list \<times> error option \<times> Database"
where
  "indexVisits E depth (indexLeaf cells) db = (map (\<lambda>pl. (db, pl)) cells, None, db)"
| "indexVisits E 0 (indexInterior cells rightmost) db = ([], Some ErrRecursion, db)"
| "indexVisits E (Suc depth) (indexInterior cells rightmost) db =
     indexChildrenVisits E depth (map fst cells @ [rightmost]) db"
| "indexChildrenVisits E depth [] db = ([], None, db)"
| "indexChildrenVisits E depth (child # children) db =
     (case openIndex E db child of
        (Inl e, db1) \<Rightarrow> ([], Some e, db1)
      | (Inr ib, db1) \<Rightarrow>
          (case indexVisits E depth ib db1 of
             (vs, Some e, db2) \<Rightarrow> (vs, Some e, db2)
           | (vs, None, db2) \<Rightarrow>
               (case indexChildrenVisits E depth children db2 of
                  (vs', en, db3) \<Rightarrow> (vs @ vs', en, db3))))"

fun indexRun ::
  "'s indexIterCB \<Rightarrow> indexVisit list \<Rightarrow> error option \<Rightarrow> Database \<Rightarrow> 's
     \<Rightarrow> (bool \<times> error option) \<times> 's \<times> Database"
where
  "indexRun cb [] en dbEnd s = ((False, en), s, dbEnd)"
| "indexRun cb ((dbv, pl) # vs) en dbEnd s =
     (case cb s dbv pl of
        ((done, e), s1) \<Rightarrow>
          if done \<or> e \<noteq> None then ((done, e), s1, dbv)
          else indexRun cb vs en dbEnd s1)"

text \<open>
  A callback of the user that also keeps the log of what it returned, call after call:
  the callback \<open>cb\<close> with a second component of state.
\<close>

definition logTableScanCB :: "'s TableScanCB \<Rightarrow> ('s \<times> bool list) TableScanCB" where
  "logTableScanCB cb = (\<lambda>(s, lg) rowid rec. case cb s rowid rec of (stop, s1) \<Rightarrow> (stop, (s1, lg @ [stop])))"

definition logRecordCB :: "'s RecordCB \<Rightarrow> ('s \<times> bool list) RecordCB" where
  "logRecordCB cb = (\<lambda>(s, lg) rec. case cb s rec of (stop, s1) \<Rightarrow> (stop, (s1, lg @ [stop])))"

section \<open>The rows of the master table in the words of the spec\<close>

text \<open>
  Spec 4.8: "each row must decode to a 5-tuple (type, name, tbl_name, rootpage, sql)
  with the first three being text, fourth an integer, fifth text."
\<close>

fun spec_master_row :: "Record \<Rightarrow> sqliteMaster option" where
  "spec_master_row [Text t, Text n, Text tn, Integer rp, Text s] =
     Some \<lparr>typ' = t, name = n, tblName = tn, rootPage = sint rp, sql = s\<rparr>"
| "spec_master_row _ = None"

text \<open>The decoding of the payload of a visited row: addOverflow, then parseRecord.\<close>

definition decodeRow :: "env \<Rightarrow> Database \<Rightarrow> cellPayload \<Rightarrow> error + Record" where
  "decodeRow E db pl =
     (case addOverflow E db pl of Inl e \<Rightarrow> Inl e | Inr c \<Rightarrow> parseRecord E c)"

text \<open>
  The rows in the order of the visits, added to the objects so far: a row that does not
  decode ends the list with its error, a row of another shape ends it with
  ErrInvalidDef (spec 7), and at the end \<open>en\<close> is the error that ended the traversal.
\<close>

fun spec_master_rows ::
  "(error + Record) list \<Rightarrow> error option \<Rightarrow> sqliteMaster list \<Rightarrow> sqliteMaster list \<times> error option"
where
  "spec_master_rows [] en objs = (objs, en)"
| "spec_master_rows (Inl e # rows) en objs = (objs, Some e)"
| "spec_master_rows (Inr rec # rows) en objs =
     (case spec_master_row rec of
        None \<Rightarrow> (objs, Some ErrInvalidDef)
      | Some m \<Rightarrow> spec_master_rows rows en (objs @ [m]))"

section \<open>The header checks in the words of the spec\<close>

text \<open>
  Spec 4.2, check 2: "raw 1 means 65536; otherwise must be a power of two in
  [512, 65536]". The result is the page size, or \<open>None\<close> for an invalid field.
\<close>

definition spec_page_size :: "16 word \<Rightarrow> nat option" where
  "spec_page_size raw =
     (if raw = 1 then Some 65536
      else if 512 \<le> unat raw \<and> unat raw \<le> 65536 \<and> (\<exists>k \<in> {0..16}. unat raw = 2 ^ k)
      then Some (unat raw) else None)"



section \<open>Example data\<close>

text \<open>
  A header of 100 bytes: \<open>m\<close> is the first byte of the magic, \<open>p\<close> and \<open>q\<close> the page
  size field, \<open>rv\<close> the read version, \<open>rs\<close> the reserved space, \<open>cc\<close> the low byte of the
  change counter and \<open>sc\<close> the low byte of the schema cookie. The other fields hold the
  values of a database sqlite writes (schema format 4, UTF-8).
\<close>

definition mkHeader :: "byte \<Rightarrow> byte \<Rightarrow> byte \<Rightarrow> byte \<Rightarrow> byte \<Rightarrow> byte \<Rightarrow> byte \<Rightarrow> byte list" where
  "mkHeader m p q rv rs cc sc =
     [m, 0x51, 0x4c, 0x69, 0x74, 0x65, 0x20, 0x66, 0x6f, 0x72, 0x6d, 0x61, 0x74, 0x20, 0x33, 0x00,
      p, q, 1, rv, rs, 64, 32, 32,
      0, 0, 0, cc,  0, 0, 0, 0,  0, 0, 0, 0,  0, 0, 0, 0,
      0, 0, 0, sc,  0, 0, 0, 4,  0, 0, 0, 0,  0, 0, 0, 0,
      0, 0, 0, 1,  0, 0, 0, 0,  0, 0, 0, 0,  0, 0, 0, 0,
      0, 0, 0, 0,  0, 0, 0, 0,  0, 0, 0, 0,  0, 0, 0, 0,  0, 0, 0, 0,
      0, 0, 0, 0,  0, 0, 0, 0]"

text \<open>
  A hot journal of 28 bytes: the magic, a page count of 1 and zeros.
\<close>

definition hotJournal :: "byte list" where
  "hotJournal =
     [0xd9, 0xd5, 0x05, 0xf9, 0x20, 0xa1, 0x63, 0xd7,  0, 0, 0, 1,
      0, 0, 0, 0,  0, 0, 0, 0,  0, 0, 0, 0,  0, 0, 0, 0]"

text \<open>
  A file system with the database \<open>db\<close> of contents \<open>d\<close> and whatever \<open>j\<close> says at the
  path of its journal.
\<close>

definition exFs :: "byte list \<Rightarrow> fsentry \<Rightarrow> filesystem" where
  "exFs d j = (\<lambda>p. if p = ''db'' then Contents d else if p = ''db-journal'' then j else Absent)"

text \<open>
  Three rows of a master table and a toy record codec for them: the payload of row
  \<open>k\<close> is the byte \<open>k\<close>. Row 1 is a table, row 2 the automatic index of a primary key
  (its sql is empty), row 3 has a NULL name.
\<close>

definition exRecord :: "byte list \<Rightarrow> error + Record" where
  "exRecord bs =
     (if bs = [1] then
        Inr [Text ''table'', Text ''hello'', Text ''hello'', Integer 2,
             Text ''CREATE TABLE hello (a, b, c)'']
      else if bs = [2] then
        Inr [Text ''index'', Text ''sqlite_autoindex_hello_1'', Text ''hello'', Integer 3, Text '''']
      else if bs = [3] then
        Inr [Text ''table'', Null, Text ''t'', Integer 4, Text ''CREATE TABLE t (a)'']
      else Inl ErrCorrupted)"

definition exCell :: "byte \<Rightarrow> int64 \<times> cellPayload" where
  "exCell k = (ucast k, \<lparr>Payload = [k], Length = 1, Overflow = 0\<rparr>)"

definition exEnv :: "filesystem \<Rightarrow> env" where
  "exEnv f =
     \<lparr>fs = f,
      newBtree = (\<lambda>buf first. Inl ErrCorrupted),
      addOverflow = (\<lambda>db pl. Inr (Payload pl)),
      parseRecord = exRecord\<rparr>"

text \<open>
  A database after a successful open, with page 1 (a leaf with the given cells), page 2
  (the leaf of the table hello) and page 3 (the leaf of its index) in the page cache.
\<close>

definition exDb :: "byte list \<Rightarrow> (int64 \<times> cellPayload) list \<Rightarrow> Database" where
  "exDb d cells =
     \<lparr>journal = ''db-journal'', dirty = False, l = \<lparr>mm = d\<rparr>,
      header = Some \<lparr>PageSize = 4096, ChangeCounter = 7, SchemaCookie = 9\<rparr>,
      btreeCache = \<lparr>capacity = CachePages,
                    entries = [(1, TablePage (tableLeaf cells)),
                               (2, TablePage (tableLeaf [exCell 1, exCell 2, exCell 3])),
                               (3, IndexPage (indexLeaf [snd (exCell 1), snd (exCell 2),
                                                         snd (exCell 3)]))]\<rparr>,
      objectCache = None\<rparr>"

text \<open>
  The database as newDatabase makes it before the first resolveDirty, and as OpenFile
  returns it for a file that starts with the header \<open>mkHeader 0x53 0x10 0 1 0 7 9\<close>.
\<close>

definition exFresh :: "byte list \<Rightarrow> Database" where
  "exFresh d =
     \<lparr>journal = ''db-journal'', dirty = True, l = \<lparr>mm = d\<rparr>, header = None,
      btreeCache = newBtreeCache CachePages, objectCache = None\<rparr>"

definition exOpened :: "byte list \<Rightarrow> Database" where
  "exOpened d =
     \<lparr>journal = ''db-journal'', dirty = False, l = \<lparr>mm = d\<rparr>,
      header = Some \<lparr>PageSize = 4096, ChangeCounter = 7, SchemaCookie = 9\<rparr>,
      btreeCache = newBtreeCache CachePages, objectCache = None\<rparr>"

text \<open>The objects of rows 1 and 2.\<close>

definition exTable :: sqliteMaster where
  "exTable = \<lparr>typ' = ''table'', name = ''hello'', tblName = ''hello'', rootPage = 2,
              sql = ''CREATE TABLE hello (a, b, c)''\<rparr>"

definition exAutoIndex :: sqliteMaster where
  "exAutoIndex = \<lparr>typ' = ''index'', name = ''sqlite_autoindex_hello_1'', tblName = ''hello'',
                  rootPage = 3, sql = ''''\<rparr>"

section \<open>Properties of parseHeader\<close>

lemma OnesCount_0_iff: "OnesCount n = 0 \<longleftrightarrow> n = 0"
  by (induction n rule: OnesCount.induct) (subst OnesCount.simps, auto)

lemma OnesCount_1_iff: "OnesCount n = 1 \<longleftrightarrow> (\<exists>k. n = 2 ^ k)"
proof (induction n rule: OnesCount.induct)
  case (1 n)
  show ?case
  proof (cases "n = 0")
    case True
    then show ?thesis by (subst OnesCount.simps) simp
  next
    case False
    note IH = 1[OF False]
    show ?thesis
    proof (cases "even n")
      case True
      have "OnesCount n = OnesCount (n div 2)"
        using True False by (subst OnesCount.simps) simp
      moreover have "(\<exists>k. n div 2 = 2 ^ k) \<longleftrightarrow> (\<exists>k. n = 2 ^ k)"
      proof
        assume "\<exists>k. n div 2 = 2 ^ k"
        then obtain k where "n div 2 = 2 ^ k" ..
        with True have "n = 2 ^ Suc k" by auto
        then show "\<exists>k. n = 2 ^ k" ..
      next
        assume "\<exists>k. n = 2 ^ k"
        then obtain k where k: "n = 2 ^ k" ..
        with True have "k \<noteq> 0" by (cases k) auto
        then obtain j where "k = Suc j" by (cases k) auto
        with k have "n div 2 = 2 ^ j" by simp
        then show "\<exists>k. n div 2 = 2 ^ k" ..
      qed
      ultimately show ?thesis using IH by simp
    next
      case odd: False
      have "OnesCount n = 1 + OnesCount (n div 2)"
        using odd False by (subst OnesCount.simps) (simp add: odd_iff_mod_2_eq_one)
      then have "OnesCount n = 1 \<longleftrightarrow> n div 2 = 0"
        by (simp add: OnesCount_0_iff)
      also have "\<dots> \<longleftrightarrow> n = 1" using odd False by (auto elim: oddE)
      also have "\<dots> \<longleftrightarrow> (\<exists>k. n = 2 ^ k)"
      proof
        assume "n = 1" then have "n = 2 ^ 0" by simp
        then show "\<exists>k. n = 2 ^ k" ..
      next
        assume "\<exists>k. n = 2 ^ k"
        then obtain k where k: "n = 2 ^ k" ..
        with odd show "n = 1" by (cases k) auto
      qed
      finally show ?thesis .
    qed
  qed
qed

lemma pow2_le_65536: "(2::nat) ^ k \<le> 65536 \<Longrightarrow> k \<le> 16"
proof -
  assume "(2::nat) ^ k \<le> 65536"
  then have "(2::nat) ^ k \<le> 2 ^ 16" by simp
  then show "k \<le> 16" by (simp only: power_increasing_iff) 
qed

lemma isPower_bounded:
  "n \<le> 65536 \<Longrightarrow> isPower n \<longleftrightarrow> (\<exists>k \<in> {0..16}. n = 2 ^ k)"
  unfolding isPower_def OnesCount_1_iff
  using pow2_le_65536 by auto

lemma page_size_check:
  "(let s = unat raw; s = (if s = 1 then 2 ^ 16 else s)
    in if s < 512 \<or> s > 2 ^ 16 \<or> \<not> isPower s then None else Some s) = spec_page_size raw"
proof (cases "raw = 1")
  case True
  have "isPower 65536" using isPower_bounded[of 65536] by (auto intro: bexI[of _ 16])
  then show ?thesis using True by (simp add: spec_page_size_def)
next
  case False
  then have "unat raw \<noteq> 1" by (simp add: word_unat_eq_iff)
  then show ?thesis using False
    by (auto simp: spec_page_size_def Let_def isPower_bounded)
qed

lemma all_zero_iff: "length xs = n \<Longrightarrow> (\<exists>v \<in> set xs. v \<noteq> (0::byte)) \<longleftrightarrow> xs \<noteq> replicate n 0"
  by (metis replicate_length_same in_set_replicate)

lemma binaryRead_100: "length b = headerSize \<Longrightarrow> binaryRead b = Inr (decodeHs b)"
  by (simp add: binaryRead_def)

lemma length_reserved: "length b = headerSize \<Longrightarrow> length (ReservedForExpansion (decodeHs b)) = 20"
  by (simp add: decodeHs_def slice_def headerSize_def)

text \<open>parseHeader on the decoded struct, the page size test replaced by the spec's.\<close>

lemma parseHeader_unfold:
  assumes "length b = headerSize"
  shows "parseHeader b =
     (let hs = decodeHs b in
      if Magic hs \<noteq> headerMagic then (header0, Some ErrInvalidMagic)
      else case spec_page_size (hsPageSize hs) of
        None \<Rightarrow> (header0, Some ErrInvalidPageSize)
      | Some s \<Rightarrow>
          if ReadVersion hs = 1 then
            if ReservedSpace hs \<noteq> 0 then (header0\<lparr>PageSize := int s\<rparr>, Some ErrReservedSpace)
            else if MaxFraction hs \<noteq> 64 \<or> MinFraction hs \<noteq> 32 \<or> LeafFraction hs \<noteq> 32
            then (header0\<lparr>PageSize := int s\<rparr>, Some ErrIncompatible)
            else
              let h = \<lparr>PageSize = int s, ChangeCounter = hsChangeCounter hs,
                       SchemaCookie = hsSchemaCookie hs\<rparr> in
              if SchemaFormat hs \<noteq> 2 \<and> SchemaFormat hs \<noteq> 3 \<and> SchemaFormat hs \<noteq> 4
              then (h, Some ErrIncompatible)
              else if TextEncoding hs = 1 then
                if ReservedForExpansion hs \<noteq> replicate 20 0 then (h, Some ErrIncompatible)
                else (h, None)
              else if TextEncoding hs = 2 \<or> TextEncoding hs = 3 then (h, Some ErrEncoding)
              else (h, Some ErrIncompatible)
          else if ReadVersion hs = 2 then (header0\<lparr>PageSize := int s\<rparr>, Some ErrWAL)
          else (header0\<lparr>PageSize := int s\<rparr>, Some ErrIncompatible))"
proof -
  let ?hs = "decodeHs b"
  let ?raw = "hsPageSize ?hs"
  define s where "s = (if unat ?raw = 1 then 2 ^ 16 else unat ?raw)"
  have ps: "spec_page_size ?raw = (if s < 512 \<or> s > 2 ^ 16 \<or> \<not> isPower s then None else Some s)"
    using page_size_check[of ?raw] by (simp only: Let_def s_def)
  have z: "(\<exists>v \<in> set (ReservedForExpansion ?hs). v \<noteq> 0) \<longleftrightarrow> ReservedForExpansion ?hs \<noteq> replicate 20 0"
    by (rule all_zero_iff[OF length_reserved[OF assms]])
  have step: "parseHeader b =
     (if Magic ?hs \<noteq> headerMagic then (header0, Some ErrInvalidMagic)
      else if s < 512 \<or> s > 2 ^ 16 \<or> \<not> isPower s then (header0, Some ErrInvalidPageSize)
      else
        if ReadVersion ?hs = 1 then
          if unat (ReservedSpace ?hs) \<noteq> 0 then (header0\<lparr>PageSize := int s\<rparr>, Some ErrReservedSpace)
          else if MaxFraction ?hs \<noteq> 64 \<or> MinFraction ?hs \<noteq> 32 \<or> LeafFraction ?hs \<noteq> 32
          then (header0\<lparr>PageSize := int s\<rparr>, Some ErrIncompatible)
          else
            if SchemaFormat ?hs \<noteq> 2 \<and> SchemaFormat ?hs \<noteq> 3 \<and> SchemaFormat ?hs \<noteq> 4
            then (header0\<lparr>PageSize := int s, ChangeCounter := hsChangeCounter ?hs,
                    SchemaCookie := hsSchemaCookie ?hs\<rparr>, Some ErrIncompatible)
            else if TextEncoding ?hs = 1 then
              if \<exists>v \<in> set (ReservedForExpansion ?hs). v \<noteq> 0
              then (header0\<lparr>PageSize := int s, ChangeCounter := hsChangeCounter ?hs,
                    SchemaCookie := hsSchemaCookie ?hs\<rparr>, Some ErrIncompatible)
              else (header0\<lparr>PageSize := int s, ChangeCounter := hsChangeCounter ?hs,
                    SchemaCookie := hsSchemaCookie ?hs\<rparr>, None)
            else if TextEncoding ?hs = 2 \<or> TextEncoding ?hs = 3
            then (header0\<lparr>PageSize := int s, ChangeCounter := hsChangeCounter ?hs,
                    SchemaCookie := hsSchemaCookie ?hs\<rparr>, Some ErrEncoding)
            else (header0\<lparr>PageSize := int s, ChangeCounter := hsChangeCounter ?hs,
                    SchemaCookie := hsSchemaCookie ?hs\<rparr>, Some ErrIncompatible)
        else if ReadVersion ?hs = 2 then (header0\<lparr>PageSize := int s\<rparr>, Some ErrWAL)
        else (header0\<lparr>PageSize := int s\<rparr>, Some ErrIncompatible))"
    unfolding parseHeader_def binaryRead_100[OF assms] s_def
    by (simp only: Let_def sum.case)
  show ?thesis
  proof (cases "s < 512 \<or> s > 2 ^ 16 \<or> \<not> isPower s")
    case True
    then show ?thesis unfolding step using ps by (simp add: Let_def)
  next
    case False
    then show ?thesis unfolding step z using ps
      by (simp add: Let_def header0_def unat_eq_0)
  qed
qed

subsection \<open>The example headers, evaluated\<close>

lemma length_mkHeader: "length (mkHeader m p q rv rs cc sc) = headerSize"
  by (simp add: mkHeader_def headerSize_def)

lemma replicate20: "replicate 20 x = [x, x, x, x, x, x, x, x, x, x, x, x, x, x, x, x, x, x, x, x]"
  by (simp add: eval_nat_numeral)

lemma decodeHs_mkHeader:
  "decodeHs (mkHeader m p q rv rs cc sc) =
     \<lparr>Magic = m # tl headerMagic, hsPageSize = be16 [p, q], ReadVersion = rv, ReservedSpace = rs,
      MaxFraction = 64, MinFraction = 32, LeafFraction = 32,
      hsChangeCounter = ucast cc, hsSchemaCookie = ucast sc, SchemaFormat = 4, TextEncoding = 1,
      ReservedForExpansion = replicate 20 0\<rparr>"
  by (simp add: decodeHs_def mkHeader_def headerMagic_def slice_def be32_def replicate20)

lemma magic_mkHeader: "0x53 # tl headerMagic = headerMagic"
  by (simp add: headerMagic_def)

lemma spec_page_size_4096: "spec_page_size (be16 [0x10, 0]) = Some 4096"
  unfolding spec_page_size_def be16_def
  by (auto intro: bexI[of _ 12])



lemma parseHeader_mkHeader:
  "parseHeader (mkHeader 0x53 0x10 0 rv rs cc sc) =
     (if rv = 1 then
        if rs \<noteq> 0 then (header0\<lparr>PageSize := 4096\<rparr>, Some ErrReservedSpace)
        else (\<lparr>PageSize = 4096, ChangeCounter = ucast cc, SchemaCookie = ucast sc\<rparr>, None)
      else if rv = 2 then (header0\<lparr>PageSize := 4096\<rparr>, Some ErrWAL)
      else (header0\<lparr>PageSize := 4096\<rparr>, Some ErrIncompatible))"
  unfolding parseHeader_unfold[OF length_mkHeader] decodeHs_mkHeader
  by (simp add: magic_mkHeader spec_page_size_4096)

section \<open>The claims\<close>



subsection \<open>resolveDirty, path by path\<close>

lemma ReadAt_inside:
  "0 \<le> off \<Longrightarrow> nat off + n \<le> length data \<Longrightarrow>
   ReadAt data n off = (take n (drop (nat off) data), None)"
  by (auto simp: ReadAt_def Let_def)

lemma filePager_header_ok:
  "headerSize \<le> length (mm p) \<Longrightarrow> filePager_header p = (take headerSize (mm p), None)"
  by (simp add: filePager_header_def ReadAt_inside)

lemma resolveDirty_clean: "\<not> dirty db \<Longrightarrow> resolveDirty E db = (None, db)"
  by (simp add: resolveDirty_def)

lemma resolveDirty_hot:
  "dirty db \<Longrightarrow> journal db \<noteq> [] \<Longrightarrow> validJournal (fs E) (journal db) = (True, None) \<Longrightarrow>
   resolveDirty E db = (Some ErrHotJournal, db)"
  by (simp add: resolveDirty_def CheckReservedLock_def)

text \<open>The database after a header that parsed: what resolveDirty stores.\<close>

lemma resolveDirty_pass:
  assumes "dirty db"
    and "journal db = [] \<or> validJournal (fs E) (journal db) = (False, None)"
  shows "resolveDirty E db =
     (case filePager_header (l db) of
        (buf, Some e) \<Rightarrow> (Some e, db)
      | (buf, None) \<Rightarrow>
          (case parseHeader buf of
             (nh, Some e) \<Rightarrow> (Some e, db)
           | (nh, None) \<Rightarrow>
               (None,
                db\<lparr>btreeCache :=
                     (if \<exists>h. header db = Some h \<and> ChangeCounter h \<noteq> ChangeCounter nh
                      then cache_clear (btreeCache db) else btreeCache db),
                   objectCache :=
                     (if \<exists>h. header db = Some h \<and> SchemaCookie h \<noteq> SchemaCookie nh
                      then None else objectCache db),
                   dirty := False,
                   header := Some nh\<rparr>)))"
proof -
  obtain buf eo where H: "filePager_header (l db) = (buf, eo)"
    by (cases "filePager_header (l db)")
  obtain nh po where P: "parseHeader buf = (nh, po)"
    by (cases "parseHeader buf")
  have gate: "(if journal db \<noteq> [] then
             (case validJournal (fs E) (journal db) of
                (hot, Some e) \<Rightarrow> Some e
              | (hot, None) \<Rightarrow>
                  if hot then
                    (case CheckReservedLock (l db) of
                       (locked, Some e) \<Rightarrow> Some e
                     | (locked, None) \<Rightarrow> if \<not> locked then Some ErrHotJournal else None)
                  else None)
           else None) = None"
    using assms(2) by auto
  show ?thesis
  proof (cases eo)
    case (Some e)
    then show ?thesis using assms(1) H
      by (simp add: resolveDirty_def Let_def gate)
  next
    case None
    note eo = this
    show ?thesis
    proof (cases po)
      case (Some e)
      then show ?thesis using assms(1) H P eo
        by (simp add: resolveDirty_def Let_def gate)
    next
      case None
      show ?thesis
      proof (cases "header db")
        case None
        then show ?thesis using assms(1) H P eo \<open>po = None\<close>
          by (simp add: resolveDirty_def Let_def gate)
      next
        case (Some h)
        then show ?thesis using assms(1) H P eo \<open>po = None\<close>
          by (simp add: resolveDirty_def Let_def gate)
      qed
    qed
  qed
qed

lemma newDatabase_fresh:
  "newDatabase E p j = (case resolveDirty E \<lparr>journal = j, dirty = True, l = p, header = None,
               btreeCache = newBtreeCache CachePages, objectCache = None\<rparr> of (e, d') \<Rightarrow> (d', e))"
  by (simp add: newDatabase_def Let_def)

lemma OpenFile_Contents:
  "fs E f = Contents d \<Longrightarrow>
   OpenFile E f = (case newDatabase E \<lparr>mm = d\<rparr> (f @ ''-journal'') of (db, e) \<Rightarrow> (Some db, e))"
  by (simp add: OpenFile_def newFilePager_def)


subsection \<open>The example file system and databases, evaluated\<close>

lemma validJournal_absent: "validJournal (fs (exEnv (exFs d Absent))) ''db-journal'' = (False, None)"
  by (simp add: validJournal_def exEnv_def exFs_def)

lemma validJournal_hot:
  "validJournal (fs (exEnv (exFs d (Contents hotJournal)))) ''db-journal'' = (True, None)"
  by (simp add: validJournal_def exEnv_def exFs_def hotJournal_def journalMagic_def slice_def
      be32_def)

lemma fs_exEnv_db: "fs (exEnv (exFs d j)) ''db'' = Contents d"
  by (simp add: exEnv_def exFs_def)

lemma take_mkHeader: "take headerSize (mkHeader m p q rv rs cc sc) = mkHeader m p q rv rs cc sc"
  using length_mkHeader[of m p q rv rs cc sc] by simp



text \<open>
  Claim C3, as amended. When the dirty flag is not set, resolveDirty returns without
  error and leaves the database as it is. When the dirty flag is set, the journal check
  passes, and the header is read and parsed without error, the parsed header becomes
  the cached one, the page cache is cleared if there was a cached header with another
  change counter, the object cache is cleared if there was a cached header with another
  schema cookie, and the dirty flag is cleared.
\<close>

theorem resolveDirty_refresh:
  "(\<not> dirty db \<longrightarrow> resolveDirty E db = (None, db))
   \<and> (dirty db \<longrightarrow>
        (journal db = [] \<or> validJournal (fs E) (journal db) = (False, None)) \<longrightarrow>
        filePager_header (l db) = (buf, None) \<longrightarrow>
        parseHeader buf = (nh, None) \<longrightarrow>
        resolveDirty E db =
          (None,
           db\<lparr>btreeCache :=
                (if \<exists>h. header db = Some h \<and> ChangeCounter h \<noteq> ChangeCounter nh
                 then cache_clear (btreeCache db) else btreeCache db),
              objectCache :=
                (if \<exists>h. header db = Some h \<and> SchemaCookie h \<noteq> SchemaCookie nh
                 then None else objectCache db),
              dirty := False,
              header := Some nh\<rparr>))"
proof (intro conjI impI)
  assume "\<not> dirty db"
  then show "resolveDirty E db = (None, db)" by (rule resolveDirty_clean)
next
  assume "dirty db"
    and "journal db = [] \<or> validJournal (fs E) (journal db) = (False, None)"
    and "filePager_header (l db) = (buf, None)"
    and "parseHeader buf = (nh, None)"
  then show "resolveDirty E db =
          (None,
           db\<lparr>btreeCache :=
                (if \<exists>h. header db = Some h \<and> ChangeCounter h \<noteq> ChangeCounter nh
                 then cache_clear (btreeCache db) else btreeCache db),
              objectCache :=
                (if \<exists>h. header db = Some h \<and> SchemaCookie h \<noteq> SchemaCookie nh
                 then None else objectCache db),
              dirty := False,
              header := Some nh\<rparr>)"
    by (simp add: resolveDirty_pass)
qed

text \<open>
  Claim C4, as amended. If the dirty flag is set, the path of the journal is not empty,
  the journal is hot and CheckReservedLock reports no reserved lock, then resolveDirty
  returns ErrHotJournal and leaves the database as it is: the cached header, both
  caches and the dirty flag. The header is not read: the same holds whatever file the
  pager maps.
\<close>

theorem resolveDirty_hot_journal:
  assumes "dirty db"
    and "journal db \<noteq> []"
    and "validJournal (fs E) (journal db) = (True, None)"
    and "CheckReservedLock (l db) = (False, None)"
  shows "resolveDirty E db = (Some ErrHotJournal, db)
    \<and> (\<forall>p. resolveDirty E (db\<lparr>l := p\<rparr>) = (Some ErrHotJournal, db\<lparr>l := p\<rparr>))"
  using assms by (simp add: resolveDirty_hot)

lemma filePager_header_mkHeader:
  "filePager_header \<lparr>mm = mkHeader m p q rv rs cc sc\<rparr> = (mkHeader m p q rv rs cc sc, None)"
  using filePager_header_ok[of "\<lparr>mm = mkHeader m p q rv rs cc sc\<rparr>"]
  by (simp add: length_mkHeader take_mkHeader)

lemma resolveDirty_exFresh_wal:
  "resolveDirty (exEnv (exFs (mkHeader 0x53 0x10 0 2 0 7 9) Absent))
       (exFresh (mkHeader 0x53 0x10 0 2 0 7 9))
     = (Some ErrWAL, exFresh (mkHeader 0x53 0x10 0 2 0 7 9))"
  by (subst resolveDirty_pass)
     (simp_all add: exFresh_def validJournal_absent filePager_header_mkHeader parseHeader_mkHeader)

lemma resolveDirty_exFresh_ok:
  "resolveDirty (exEnv (exFs (mkHeader 0x53 0x10 0 1 0 7 9) Absent))
       (exFresh (mkHeader 0x53 0x10 0 1 0 7 9))
     = (None, exOpened (mkHeader 0x53 0x10 0 1 0 7 9))"
  by (subst resolveDirty_pass)
     (simp_all add: exFresh_def exOpened_def validJournal_absent filePager_header_mkHeader
        parseHeader_mkHeader)

lemma OpenFile_exFresh:
  "OpenFile (exEnv (exFs d j)) ''db'' =
     (case resolveDirty (exEnv (exFs d j)) (exFresh d) of (e, db) \<Rightarrow> (Some db, e))"
  by (simp add: OpenFile_Contents[OF fs_exEnv_db] newDatabase_fresh exFresh_def
      split: prod.splits)

text \<open>
  The claim C3 as it is written fails where the header does not parse: on the fresh
  database of a file in WAL mode, with no journal, the dirty flag is set, no hot
  journal blocks resolveDirty, and the dirty flag is still set afterwards.
\<close>

theorem resolveDirty_refresh_counterexample:
  "dirty (exFresh (mkHeader 0x53 0x10 0 2 0 7 9))
   \<and> validJournal (fs (exEnv (exFs (mkHeader 0x53 0x10 0 2 0 7 9) Absent)))
         (journal (exFresh (mkHeader 0x53 0x10 0 2 0 7 9))) = (False, None)
   \<and> fst (resolveDirty (exEnv (exFs (mkHeader 0x53 0x10 0 2 0 7 9) Absent))
         (exFresh (mkHeader 0x53 0x10 0 2 0 7 9))) = Some ErrWAL
   \<and> dirty (snd (resolveDirty (exEnv (exFs (mkHeader 0x53 0x10 0 2 0 7 9) Absent))
         (exFresh (mkHeader 0x53 0x10 0 2 0 7 9))))"
  by (simp add: resolveDirty_exFresh_wal)
     (simp add: exFresh_def validJournal_absent)

text \<open>
  The theorem at a database whose file now has change counter 8 where the cached
  header has 7, and the same schema cookie: the page cache is cleared, the object
  cache is kept. And at the same database with the dirty flag not set.
\<close>

theorem resolveDirty_refresh_witness:
  "dirty ((exDb (mkHeader 0x53 0x10 0 1 0 8 9) [])\<lparr>dirty := True, objectCache := Some \<lparr>objects = [], err = None\<rparr>\<rparr>)
   \<and> validJournal (fs (exEnv (exFs (mkHeader 0x53 0x10 0 1 0 8 9) Absent)))
        (journal ((exDb (mkHeader 0x53 0x10 0 1 0 8 9) [])\<lparr>dirty := True, objectCache := Some \<lparr>objects = [], err = None\<rparr>\<rparr>))
        = (False, None)
   \<and> resolveDirty (exEnv (exFs (mkHeader 0x53 0x10 0 1 0 8 9) Absent))
        ((exDb (mkHeader 0x53 0x10 0 1 0 8 9) [])\<lparr>dirty := True, objectCache := Some \<lparr>objects = [], err = None\<rparr>\<rparr>)
       = (None,
          (exDb (mkHeader 0x53 0x10 0 1 0 8 9) [])
            \<lparr>dirty := False, objectCache := Some \<lparr>objects = [], err = None\<rparr>,
             btreeCache := \<lparr>capacity = CachePages, entries = []\<rparr>,
             header := Some \<lparr>PageSize = 4096, ChangeCounter = 8, SchemaCookie = 9\<rparr>\<rparr>)
   \<and> \<not> dirty (exDb (mkHeader 0x53 0x10 0 1 0 8 9) [])
   \<and> resolveDirty (exEnv (exFs (mkHeader 0x53 0x10 0 1 0 8 9) Absent))
        (exDb (mkHeader 0x53 0x10 0 1 0 8 9) [])
       = (None, exDb (mkHeader 0x53 0x10 0 1 0 8 9) [])"
proof -
  let ?F = "mkHeader 0x53 0x10 0 1 0 8 9"
  let ?E = "exEnv (exFs ?F Absent)"
  let ?D = "(exDb ?F [])\<lparr>dirty := True, objectCache := Some \<lparr>objects = [], err = None\<rparr>\<rparr>"
  let ?nh = "\<lparr>PageSize = 4096, ChangeCounter = 8, SchemaCookie = 9\<rparr>"
  have d: "dirty ?D" by simp
  have j: "validJournal (fs ?E) (journal ?D) = (False, None)"
    by (simp add: exDb_def validJournal_absent)
  have h: "filePager_header (l ?D) = (?F, None)"
    by (simp add: exDb_def filePager_header_mkHeader)
  have p: "parseHeader ?F = (?nh, None)"
    by (simp add: parseHeader_mkHeader)
  have "resolveDirty ?E ?D =
          (None,
           ?D\<lparr>btreeCache :=
                (if \<exists>h. header ?D = Some h \<and> ChangeCounter h \<noteq> ChangeCounter ?nh
                 then cache_clear (btreeCache ?D) else btreeCache ?D),
              objectCache :=
                (if \<exists>h. header ?D = Some h \<and> SchemaCookie h \<noteq> SchemaCookie ?nh
                 then None else objectCache ?D),
              dirty := False,
              header := Some ?nh\<rparr>)"
    using resolveDirty_refresh[where db = ?D and E = ?E and buf = ?F and nh = ?nh] d j h p
    by blast
  then have r1: "resolveDirty ?E ?D =
       (None, (exDb ?F [])
            \<lparr>dirty := False, objectCache := Some \<lparr>objects = [], err = None\<rparr>,
             btreeCache := \<lparr>capacity = CachePages, entries = []\<rparr>,
             header := Some ?nh\<rparr>)"
    by (simp add: exDb_def cache_clear_def)
  have c: "\<not> dirty (exDb ?F [])" by (simp add: exDb_def)
  have r2: "resolveDirty ?E (exDb ?F []) = (None, exDb ?F [])"
    using resolveDirty_refresh[where db = "exDb ?F []" and E = ?E] c by blast
  from d j r1 c r2 show ?thesis by blast
qed

text \<open>
  The claim C4 as it is written fails where the dirty flag is not set: the database
  that OpenFile returned while there was no journal meets a journal that has become
  hot since; no reserved lock is reported, and resolveDirty returns without error.
\<close>

theorem resolveDirty_hot_journal_counterexample:
  "OpenFile (exEnv (exFs (mkHeader 0x53 0x10 0 1 0 7 9) Absent)) ''db''
      = (Some (exOpened (mkHeader 0x53 0x10 0 1 0 7 9)), None)
   \<and> journal (exOpened (mkHeader 0x53 0x10 0 1 0 7 9)) \<noteq> []
   \<and> validJournal (fs (exEnv (exFs (mkHeader 0x53 0x10 0 1 0 7 9) (Contents hotJournal))))
        (journal (exOpened (mkHeader 0x53 0x10 0 1 0 7 9))) = (True, None)
   \<and> CheckReservedLock (l (exOpened (mkHeader 0x53 0x10 0 1 0 7 9))) = (False, None)
   \<and> resolveDirty (exEnv (exFs (mkHeader 0x53 0x10 0 1 0 7 9) (Contents hotJournal)))
        (exOpened (mkHeader 0x53 0x10 0 1 0 7 9))
      = (None, exOpened (mkHeader 0x53 0x10 0 1 0 7 9))"
proof -
  have "\<not> dirty (exOpened (mkHeader 0x53 0x10 0 1 0 7 9))"
    by (simp add: exOpened_def)
  then have "resolveDirty (exEnv (exFs (mkHeader 0x53 0x10 0 1 0 7 9) (Contents hotJournal)))
        (exOpened (mkHeader 0x53 0x10 0 1 0 7 9))
      = (None, exOpened (mkHeader 0x53 0x10 0 1 0 7 9))"
    by (rule resolveDirty_clean)
  moreover have "journal (exOpened (mkHeader 0x53 0x10 0 1 0 7 9)) = ''db-journal''"
    by (simp add: exOpened_def)
  ultimately show ?thesis
    by (simp add: OpenFile_exFresh resolveDirty_exFresh_ok validJournal_hot
        CheckReservedLock_def)
qed

text \<open>
  The theorem at the fresh database of a file whose journal is hot: the first
  resolveDirty, the one of OpenFile.
\<close>

theorem resolveDirty_hot_journal_witness:
  "dirty (exFresh (mkHeader 0x53 0x10 0 1 0 7 9))
   \<and> journal (exFresh (mkHeader 0x53 0x10 0 1 0 7 9)) \<noteq> []
   \<and> validJournal (fs (exEnv (exFs (mkHeader 0x53 0x10 0 1 0 7 9) (Contents hotJournal))))
        (journal (exFresh (mkHeader 0x53 0x10 0 1 0 7 9))) = (True, None)
   \<and> CheckReservedLock (l (exFresh (mkHeader 0x53 0x10 0 1 0 7 9))) = (False, None)
   \<and> resolveDirty (exEnv (exFs (mkHeader 0x53 0x10 0 1 0 7 9) (Contents hotJournal)))
        (exFresh (mkHeader 0x53 0x10 0 1 0 7 9))
      = (Some ErrHotJournal, exFresh (mkHeader 0x53 0x10 0 1 0 7 9))"
proof -
  let ?F = "mkHeader 0x53 0x10 0 1 0 7 9"
  let ?E = "exEnv (exFs ?F (Contents hotJournal))"
  have d: "dirty (exFresh ?F)" by (simp add: exFresh_def)
  have n: "journal (exFresh ?F) \<noteq> []" by (simp add: exFresh_def)
  have j: "validJournal (fs ?E) (journal (exFresh ?F)) = (True, None)"
    by (simp add: exFresh_def validJournal_hot)
  have c: "CheckReservedLock (l (exFresh ?F)) = (False, None)"
    by (simp add: CheckReservedLock_def)
  from resolveDirty_hot_journal[OF d n j c] d n j c show ?thesis by blast
qed

subsection \<open>Reading a page\<close>








subsection \<open>What resolveDirty and openPage change\<close>

lemma resolveDirty_journal_error:
  "dirty db \<Longrightarrow> journal db \<noteq> [] \<Longrightarrow> validJournal (fs E) (journal db) = (hot, Some e) \<Longrightarrow>
   resolveDirty E db = (Some e, db)"
  by (simp add: resolveDirty_def)

text \<open>A dirty database fails at the journal check, or passes it.\<close>

lemma resolveDirty_gate:
  assumes "dirty db"
  shows "(\<exists>e. resolveDirty E db = (Some e, db))
         \<or> (journal db = [] \<or> validJournal (fs E) (journal db) = (False, None))"
proof (cases "journal db = []")
  case True
  then show ?thesis by simp
next
  case False
  obtain hot je where v: "validJournal (fs E) (journal db) = (hot, je)"
    by (cases "validJournal (fs E) (journal db)")
  show ?thesis
  proof (cases je)
    case (Some e)
    then show ?thesis
      using resolveDirty_journal_error[OF assms False, of E hot e] v by simp
  next
    case None
    show ?thesis
    proof (cases hot)
      case True
      then show ?thesis
        using resolveDirty_hot[OF assms False, of E] v None by simp
    next
      case False
      then show ?thesis using v None by simp
    qed
  qed
qed

lemma resolveDirty_error:
  assumes "resolveDirty E db = (Some e, db1)"
  shows "db1 = db \<and> dirty db"
proof (cases "dirty db")
  case False
  then show ?thesis using assms by (simp add: resolveDirty_clean)
next
  case True
  from resolveDirty_gate[OF True, of E] show ?thesis
  proof
    assume "\<exists>e. resolveDirty E db = (Some e, db)"
    then show ?thesis using assms True by auto
  next
    assume pass: "journal db = [] \<or> validJournal (fs E) (journal db) = (False, None)"
    show ?thesis
      using assms True unfolding resolveDirty_pass[OF True pass]
      by (auto split: prod.splits option.splits)
  qed
qed

lemma resolveDirty_success:
  assumes "resolveDirty E db = (None, db1)"
  shows "\<not> dirty db1 \<and> journal db1 = journal db \<and> l db1 = l db
         \<and> (objectCache db1 = objectCache db \<or> objectCache db1 = None)"
proof (cases "dirty db")
  case False
  then show ?thesis using assms by (simp add: resolveDirty_clean)
next
  case True
  from resolveDirty_gate[OF True, of E] show ?thesis
  proof
    assume "\<exists>e. resolveDirty E db = (Some e, db)"
    then show ?thesis using assms by auto
  next
    assume pass: "journal db = [] \<or> validJournal (fs E) (journal db) = (False, None)"
    show ?thesis
      using assms unfolding resolveDirty_pass[OF True pass]
      by (auto split: prod.splits option.splits if_splits)
  qed
qed

text \<open>On a database that is not dirty, openPage changes the page cache only.\<close>

lemma openPage_clean:
  assumes "\<not> dirty db" and "openPage E db pg = (r, db1)"
  shows "\<exists>c. db1 = db\<lparr>btreeCache := c\<rparr>"
proof -
  obtain po c where g: "cache_get (btreeCache db) pg = (po, c)"
    by (cases "cache_get (btreeCache db) pg")
  show ?thesis
  proof (cases po)
    case (Some p)
    then show ?thesis
      using assms g by (auto simp: openPage_def resolveDirty_clean)
  next
    case None
    obtain buf eo where pgr: "page (db\<lparr>btreeCache := c\<rparr>) pg = (buf, eo)"
      by (cases "page (db\<lparr>btreeCache := c\<rparr>) pg")
    show ?thesis
      using assms g None pgr
      by (cases eo; cases "newBtree E buf (pg = 1)")
         (auto simp: openPage_def resolveDirty_clean Let_def)
  qed
qed

lemma openTable_clean:
  assumes "\<not> dirty db" and "openTable E db pg = (r, db1)"
  shows "\<exists>c. db1 = db\<lparr>btreeCache := c\<rparr>"
proof -
  obtain r0 db0 where o: "openPage E db pg = (r0, db0)"
    by (cases "openPage E db pg")
  have "db1 = db0"
    using assms(2) o
    by (auto simp: openTable_def split: sum.splits btree.splits)
  then show ?thesis using openPage_clean[OF assms(1) o] by simp
qed

subsection \<open>The object cache\<close>

lemma master_cached:
  "\<not> dirty db \<Longrightarrow> objectCache db = Some oc \<Longrightarrow> master E db = ((objects oc, err oc), db)"
  by (simp add: master_def resolveDirty_clean)

text \<open>A call of master that leaves a stored cache and a clean flag returned what is stored.\<close>

lemma master_returns_cache:
  assumes "master E db = (r, db1)" and "objectCache db1 = Some oc" and "\<not> dirty db1"
  shows "r = (objects oc, err oc)"
proof -
  obtain e0 dbA where rd: "resolveDirty E db = (e0, dbA)"
    by (cases "resolveDirty E db")
  show ?thesis
  proof (cases e0)
    case (Some e)
    then have "db1 = dbA" using assms(1) rd by (simp add: master_def)
    moreover have "dbA = db \<and> dirty db" using resolveDirty_error rd Some by blast
    ultimately show ?thesis using assms(3) by simp
  next
    case None
    note e0 = this
    have cleanA: "\<not> dirty dbA" using resolveDirty_success rd None by blast
    show ?thesis
    proof (cases "objectCache dbA")
      case (Some oc')
      then show ?thesis using assms(1,2) rd e0 by (auto simp: master_def)
    next
      case None
      obtain t dbB where ot: "openTable E dbA 1 = (t, dbB)"
        by (cases "openTable E dbA 1")
      obtain c where dbB: "dbB = dbA\<lparr>btreeCache := c\<rparr>"
        using openTable_clean[OF cleanA ot] by blast
      show ?thesis
      proof (cases t)
        case (Inl e)
        then have "db1 = dbB" using assms(1) rd e0 None ot by (simp add: master_def)
        then show ?thesis using assms(2) dbB None by simp
      next
        case (Inr m)
        then show ?thesis
          using assms(1,2) rd e0 None ot
          by (auto simp: master_def split: prod.splits)
      qed
    qed
  qed
qed

text \<open>
  Claim C8. master memoizes both its object list and its error. After a call of master
  that leaves the cache stored and the dirty flag clear, the cache holds the objects
  and the error that call returned, and every later call returns the same objects and
  the same error and leaves the database as it is, in whatever environment and over
  whatever file: nothing is read or traversed again. In particular a master that
  failed repeats its error.
\<close>

theorem master_memoized:
  assumes "master E db = (r, db1)"
    and "objectCache db1 = Some oc"
    and "\<not> dirty db1"
  shows "oc = \<lparr>objects = fst r, err = snd r\<rparr>
    \<and> master E db1 = (r, db1)
    \<and> (\<forall>E' p. master E' (db1\<lparr>l := p\<rparr>) = (r, db1\<lparr>l := p\<rparr>))"
proof -
  have r: "r = (objects oc, err oc)"
    using master_returns_cache[OF assms] .
  then have "oc = \<lparr>objects = fst r, err = snd r\<rparr>" by simp
  moreover have "master E' (db1\<lparr>l := p\<rparr>) = (r, db1\<lparr>l := p\<rparr>)" for E' p
    using assms(2,3) r by (simp add: master_cached)
  moreover have "master E db1 = (r, db1)"
    using assms(2,3) r by (simp add: master_cached)
  ultimately show ?thesis by blast
qed

subsection \<open>The handles\<close>

lemma findObject_None:
  "(\<forall>ob \<in> set objs. \<not> (typ' ob = t \<and> name ob = n)) \<Longrightarrow> findObject t n objs = None"
  by (induction objs) auto

lemma findObject_first:
  "\<forall>x \<in> set pre. \<not> (typ' x = t \<and> name x = n) \<Longrightarrow> typ' ob = t \<Longrightarrow> name ob = n \<Longrightarrow>
   findObject t n (pre @ ob # post) = Some ob"
  by (induction pre) auto

text \<open>
  Claim C6. Table searches the objects master returned from the first on: when no
  object has type "table" and the given name it returns ErrNoSuchTable; otherwise it
  returns the handle with the root page and the SQL text of the first object of type
  "table" and that name, beside the database it belongs to. Index does the same with
  the objects of type "index" and ErrNoSuchIndex.
\<close>

theorem Table_Index_lookup:
  assumes "master E db = ((objs, None), db1)"
  shows "((\<forall>ob \<in> set objs. \<not> (typ' ob = ''table'' \<and> name ob = n)) \<longrightarrow>
            Database_Table E db n = (Inl ErrNoSuchTable, db1))
    \<and> (\<forall>pre ob post. objs = pre @ ob # post \<longrightarrow> typ' ob = ''table'' \<longrightarrow> name ob = n \<longrightarrow>
            (\<forall>x \<in> set pre. \<not> (typ' x = ''table'' \<and> name x = n)) \<longrightarrow>
            Database_Table E db n
              = (Inr \<lparr>Table_root = rootPage ob, Table_sql = sql ob\<rparr>, db1))
    \<and> ((\<forall>ob \<in> set objs. \<not> (typ' ob = ''index'' \<and> name ob = n)) \<longrightarrow>
            Database_Index E db n = (Inl ErrNoSuchIndex, db1))
    \<and> (\<forall>pre ob post. objs = pre @ ob # post \<longrightarrow> typ' ob = ''index'' \<longrightarrow> name ob = n \<longrightarrow>
            (\<forall>x \<in> set pre. \<not> (typ' x = ''index'' \<and> name x = n)) \<longrightarrow>
            Database_Index E db n
              = (Inr \<lparr>Index_root = rootPage ob, Index_sql = sql ob\<rparr>, db1))"
  using assms
  by (simp add: Database_Table_def Database_Index_def findObject_None findObject_first)

subsection \<open>Iter is the run of the callback over the visits\<close>

lemma tableLeafIter_runVisits:
  "runVisits cb (map (Pair db) cells) None db s
     = (fst (tableLeafIter cb cells s db), snd (tableLeafIter cb cells s db), db)"
  by (induction cells arbitrary: s) (auto split: prod.splits)

text \<open>A run that was not stopped went through all its visits.\<close>

lemma runVisits_through:
  "runVisits cb vs en dbEnd s = ((False, None), s1, dbx) \<Longrightarrow>
   en = None \<and> dbx = dbEnd \<and> runVisits cb (vs @ vs') en' dbEnd' s = runVisits cb vs' en' dbEnd' s1"
  by (induction vs arbitrary: s) (auto split: prod.splits if_splits)

text \<open>A run that was stopped is stopped at the same visit in a longer list.\<close>

lemma runVisits_stopped:
  "runVisits cb vs None dbEnd s = ((done, e), s1, dbx) \<Longrightarrow> done \<or> e \<noteq> None \<Longrightarrow>
   runVisits cb (vs @ vs') en' dbEnd' s = ((done, e), s1, dbx)"
  by (induction vs arbitrary: s) (auto split: prod.splits if_splits)

lemma tableIter_runVisits:
  "tableIter E d t cb s db =
     (case tableVisits E d t db of (vs, en, dbE) \<Rightarrow> runVisits cb vs en dbE s)"
  and tableChildrenIter_runVisits:
  "tableChildrenIter E d ps cb s db =
     (case tableChildrenVisits E d ps db of (vs, en, dbE) \<Rightarrow> runVisits cb vs en dbE s)"
proof (induction E d t cb s db and E d ps cb s db rule: tableIter_tableChildrenIter.induct)
  case (1 E depth cells cb s db)
  show ?case
    by (simp add: tableLeafIter_runVisits split: prod.splits)
next
  case (2 E cells rightmost cb s db)
  show ?case by simp
next
  case (3 E depth cells rightmost cb s db)
  then show ?case by simp
next
  case (4 E depth cb s db)
  show ?case by simp
next
  case (5 E depth child children cb s db)
  obtain x db1 where ot: "openTable E db child = (x, db1)"
    by (cases "openTable E db child")
  show ?case
  proof (cases x)
    case (Inl e)
    then show ?thesis using ot by simp
  next
    case (Inr tb)
    obtain vs en2 db2 where tv: "tableVisits E depth tb db1 = (vs, en2, db2)"
      by (cases "tableVisits E depth tb db1")
    obtain dn e s1 dbx where ti: "tableIter E depth tb cb s db1 = ((dn, e), s1, dbx)"
      by (cases "tableIter E depth tb cb s db1") auto
    have run: "runVisits cb vs en2 db2 s = ((dn, e), s1, dbx)"
      using "5.IH"(1)[OF ot[symmetric] Inr] tv ti by simp
    show ?thesis
    proof (cases en2)
      case (Some e')
      have "dn \<or> e \<noteq> None"
      proof (rule ccontr)
        assume "\<not> (dn \<or> e \<noteq> None)"
        then have "runVisits cb vs en2 db2 s = ((False, None), s1, dbx)"
          using run by simp
        from runVisits_through[OF this] have "en2 = None" by simp
        with Some show False by simp
      qed
      then show ?thesis
        using ot Inr tv ti Some run by auto
    next
      case None
      obtain vs' en3 db3 where cv: "tableChildrenVisits E depth children db2 = (vs', en3, db3)"
        by (cases "tableChildrenVisits E depth children db2")
      show ?thesis
      proof (cases "dn \<or> e \<noteq> None")
        case True
        have "runVisits cb (vs @ vs') en3 db3 s = ((dn, e), s1, dbx)"
          using runVisits_stopped[OF run[unfolded None] True] .
        then show ?thesis
          using ot Inr tv ti None cv True by auto
      next
        case False
        then have r0: "runVisits cb vs en2 db2 s = ((False, None), s1, dbx)"
          using run by simp
        have dbx: "dbx = db2"
          and app: "runVisits cb (vs @ vs') en3 db3 s = runVisits cb vs' en3 db3 s1"
          using runVisits_through[OF r0] by auto
        have "tableChildrenIter E depth children cb s1 dbx =
                (case tableChildrenVisits E depth children dbx of
                   (vs, en, dbE) \<Rightarrow> runVisits cb vs en dbE s1)"
          using "5.IH"(2)[OF ot[symmetric] Inr ti[symmetric] refl refl] False by simp
        then show ?thesis
          using ot Inr tv ti None cv False dbx app by auto
      qed
    qed
  qed
qed

subsection \<open>The same for the pages of an index\<close>

lemma indexLeafIter_indexRun:
  "indexRun cb (map (Pair db) cells) None db s
     = (fst (indexLeafIter cb cells s db), snd (indexLeafIter cb cells s db), db)"
  by (induction cells arbitrary: s) (auto split: prod.splits)

lemma indexRun_through:
  "indexRun cb vs en dbEnd s = ((False, None), s1, dbx) \<Longrightarrow>
   en = None \<and> dbx = dbEnd \<and> indexRun cb (vs @ vs') en' dbEnd' s = indexRun cb vs' en' dbEnd' s1"
  by (induction vs arbitrary: s) (auto split: prod.splits if_splits)

lemma indexRun_stopped:
  "indexRun cb vs None dbEnd s = ((done, e), s1, dbx) \<Longrightarrow> done \<or> e \<noteq> None \<Longrightarrow>
   indexRun cb (vs @ vs') en' dbEnd' s = ((done, e), s1, dbx)"
  by (induction vs arbitrary: s) (auto split: prod.splits if_splits)

lemma indexIter_indexRun:
  "indexIter E d t cb s db =
     (case indexVisits E d t db of (vs, en, dbE) \<Rightarrow> indexRun cb vs en dbE s)"
  and indexChildrenIter_indexRun:
  "indexChildrenIter E d ps cb s db =
     (case indexChildrenVisits E d ps db of (vs, en, dbE) \<Rightarrow> indexRun cb vs en dbE s)"
proof (induction E d t cb s db and E d ps cb s db rule: indexIter_indexChildrenIter.induct)
  case (1 E depth cells cb s db)
  show ?case
    by (simp add: indexLeafIter_indexRun split: prod.splits)
next
  case (2 E cells rightmost cb s db)
  show ?case by simp
next
  case (3 E depth cells rightmost cb s db)
  then show ?case by simp
next
  case (4 E depth cb s db)
  show ?case by simp
next
  case (5 E depth child children cb s db)
  obtain x db1 where ot: "openIndex E db child = (x, db1)"
    by (cases "openIndex E db child")
  show ?case
  proof (cases x)
    case (Inl e)
    then show ?thesis using ot by simp
  next
    case (Inr ib)
    obtain vs en2 db2 where tv: "indexVisits E depth ib db1 = (vs, en2, db2)"
      by (cases "indexVisits E depth ib db1")
    obtain dn e s1 dbx where ti: "indexIter E depth ib cb s db1 = ((dn, e), s1, dbx)"
      by (cases "indexIter E depth ib cb s db1") auto
    have run: "indexRun cb vs en2 db2 s = ((dn, e), s1, dbx)"
      using "5.IH"(1)[OF ot[symmetric] Inr] tv ti by simp
    show ?thesis
    proof (cases en2)
      case (Some e')
      have "dn \<or> e \<noteq> None"
      proof (rule ccontr)
        assume "\<not> (dn \<or> e \<noteq> None)"
        then have "indexRun cb vs en2 db2 s = ((False, None), s1, dbx)"
          using run by simp
        from indexRun_through[OF this] have "en2 = None" by simp
        with Some show False by simp
      qed
      then show ?thesis
        using ot Inr tv ti Some run by auto
    next
      case None
      obtain vs' en3 db3 where cv: "indexChildrenVisits E depth children db2 = (vs', en3, db3)"
        by (cases "indexChildrenVisits E depth children db2")
      show ?thesis
      proof (cases "dn \<or> e \<noteq> None")
        case True
        have "indexRun cb (vs @ vs') en3 db3 s = ((dn, e), s1, dbx)"
          using indexRun_stopped[OF run[unfolded None] True] .
        then show ?thesis
          using ot Inr tv ti None cv True by auto
      next
        case False
        then have r0: "indexRun cb vs en2 db2 s = ((False, None), s1, dbx)"
          using run by simp
        have dbx: "dbx = db2"
          and app: "indexRun cb (vs @ vs') en3 db3 s = indexRun cb vs' en3 db3 s1"
          using indexRun_through[OF r0] by auto
        have "indexChildrenIter E depth children cb s1 dbx =
                (case indexChildrenVisits E depth children dbx of
                   (vs, en, dbE) \<Rightarrow> indexRun cb vs en dbE s1)"
          using "5.IH"(2)[OF ot[symmetric] Inr ti[symmetric] refl refl] False by simp
        then show ?thesis
          using ot Inr tv ti None cv False dbx app by auto
      qed
    qed
  qed
qed

end
